theory Spec2Isabelle
  imports Complex_Main "HOL-Library.Word"
begin

section \<open>Numbers of the Go program\<close>

subsection \<open>Integers\<close>

text \<open>
  The fields of a coverage block have Go's type \<open>int\<close>. No arithmetic is done at that
  type: the program compares such a value with zero, prints it in decimal, or converts it
  to \<open>int64\<close>. A value of type \<open>int\<close> is therefore modelled by the integer it denotes;
  \<open>go_int\<close> says that the integer fits the 64 bits that \<open>int\<close> has on a 64-bit
  platform. The accumulators of \<open>percentCovered\<close> have type \<open>int64\<close> and are modelled as
  64-bit words, whose addition wraps around as Go's does.
\<close>

type_synonym int64 = "64 word"

definition go_int :: "int \<Rightarrow> bool" where
  "go_int i = (- (2 ^ 63) \<le> i \<and> i < 2 ^ 63)"

definition int64 :: "int \<Rightarrow> int64" where
  \<comment> \<open>the conversion \<open>int64(v)\<close> of a value of type \<open>int\<close>\<close>
  "int64 i = word_of_int i"

subsection \<open>Floating point\<close>

text \<open>
  A \<open>float64\<close> is an IEEE 754 binary64 number: a finite value, one of the two infinities,
  or NaN. The sign of a zero is not modelled. The only zero divisors of the program are
  conversions of the integer 0, which are positive zeros.
\<close>

datatype float64 = Fin real | PInf | NInf | NaN

definition round_even :: "real \<Rightarrow> int" where
  \<comment> \<open>the nearest integer, a tie going to the even one\<close>
  "round_even x =
     (let f = \<lfloor>x\<rfloor> in
      if x - of_int f < 1 / 2 then f
      else if 1 / 2 < x - of_int f then f + 1
      else if even f then f else f + 1)"

definition exponent :: "real \<Rightarrow> int" where
  \<comment> \<open>the binary exponent of a non-zero number, not below that of the subnormal numbers\<close>
  "exponent x = max (- 1022) \<lfloor>log 2 \<bar>x\<bar>\<rfloor>"

definition ulp :: "real \<Rightarrow> real" where
  \<comment> \<open>the distance of two neighbouring binary64 numbers around \<open>x\<close>: 53 significant bits\<close>
  "ulp x = 2 powi (exponent x - 52)"

definition nearest :: "real \<Rightarrow> real" where
  \<comment> \<open>round to nearest, ties to even, the exponent not bounded above\<close>
  "nearest x = of_int (round_even (x / ulp x)) * ulp x"

definition rnd :: "real \<Rightarrow> float64" where
  \<comment> \<open>the binary64 number of a real number: \<open>nearest\<close>, overflowing to an infinity\<close>
  "rnd x =
     (if x = 0 then Fin 0
      else if 2 ^ 1024 \<le> \<bar>nearest x\<bar> then (if 0 < x then PInf else NInf)
      else Fin (nearest x))"

fun fadd :: "float64 \<Rightarrow> float64 \<Rightarrow> float64" where
  "fadd NaN _ = NaN"
| "fadd _ NaN = NaN"
| "fadd PInf NInf = NaN"
| "fadd NInf PInf = NaN"
| "fadd PInf _ = PInf"
| "fadd _ PInf = PInf"
| "fadd NInf _ = NInf"
| "fadd _ NInf = NInf"
| "fadd (Fin x) (Fin y) = rnd (x + y)"

fun fmul :: "float64 \<Rightarrow> float64 \<Rightarrow> float64" where
  "fmul NaN _ = NaN"
| "fmul _ NaN = NaN"
| "fmul PInf PInf = PInf"
| "fmul PInf NInf = NInf"
| "fmul NInf PInf = NInf"
| "fmul NInf NInf = PInf"
| "fmul PInf (Fin y) = (if y = 0 then NaN else if 0 < y then PInf else NInf)"
| "fmul NInf (Fin y) = (if y = 0 then NaN else if 0 < y then NInf else PInf)"
| "fmul (Fin x) PInf = (if x = 0 then NaN else if 0 < x then PInf else NInf)"
| "fmul (Fin x) NInf = (if x = 0 then NaN else if 0 < x then NInf else PInf)"
| "fmul (Fin x) (Fin y) = rnd (x * y)"

fun fdiv :: "float64 \<Rightarrow> float64 \<Rightarrow> float64" where
  "fdiv NaN _ = NaN"
| "fdiv _ NaN = NaN"
| "fdiv PInf PInf = NaN"
| "fdiv PInf NInf = NaN"
| "fdiv NInf PInf = NaN"
| "fdiv NInf NInf = NaN"
| "fdiv PInf (Fin y) = (if 0 \<le> y then PInf else NInf)"
| "fdiv NInf (Fin y) = (if 0 \<le> y then NInf else PInf)"
| "fdiv (Fin x) PInf = Fin 0"
| "fdiv (Fin x) NInf = Fin 0"
| "fdiv (Fin x) (Fin y) =
     (if y = 0 then (if x = 0 then NaN else if 0 < x then PInf else NInf)
      else rnd (x / y))"

definition float64_of_int64 :: "int64 \<Rightarrow> float64" where
  \<comment> \<open>the conversion \<open>float64(v)\<close> of a value of type \<open>int64\<close>\<close>
  "float64_of_int64 w = rnd (of_int (sint w))"

definition float64_of_len :: "nat \<Rightarrow> float64" where
  \<comment> \<open>the conversion \<open>float64(len(s))\<close> of the length of a slice\<close>
  "float64_of_len n = rnd (of_nat n)"

section \<open>The coverage profile\<close>

text \<open>
  Modelled from the spec: the types \<open>Profile\<close> and \<open>ProfileBlock\<close> belong to the package
  \<open>golang.org/x/tools/cover\<close>, which the program imports and whose source is not part of
  the repository. The records have the fields that the program reads, under the names it
  reads them by: a block is the spec's Block (start line, end line, statement count, hit
  count), a profile is the spec's FileProfile together with the mode of its profile.
\<close>

record ProfileBlock =
  StartLine :: int
  EndLine :: int
  NumStmt :: int
  Count :: int

record Profile =
  FileName :: string
  Mode :: string
  Blocks :: "ProfileBlock list"

section \<open>The report\<close>

record templateFile =
  Name :: string
  Body :: string
  Coverage :: float64
  ID :: int

record templateData =
  Files :: "templateFile list"
  Set :: bool

subsection \<open>percentCovered\<close>

fun percentCovered_loop :: "ProfileBlock list \<Rightarrow> int64 \<times> int64 \<Rightarrow> int64 \<times> int64" where
  \<comment> \<open>the loop over \<open>p.Blocks\<close>; the state is the pair of \<open>total\<close> and \<open>covered\<close>\<close>
  "percentCovered_loop [] (tot, cov) = (tot, cov)"
| "percentCovered_loop (b # bs) (tot, cov) =
     percentCovered_loop bs
       (tot + int64 (NumStmt b),
        if 0 < Count b then cov + int64 (NumStmt b) else cov)"

definition percentCovered :: "Profile \<Rightarrow> float64" where
  "percentCovered p =
     (case percentCovered_loop (Blocks p) (0, 0) of
        (tot, cov) \<Rightarrow>
          if tot = 0 then Fin 0
          else fmul (fdiv (float64_of_int64 cov) (float64_of_int64 tot)) (Fin 100))"

subsection \<open>totalCoverage\<close>

fun totalCoverage_loop :: "templateFile list \<Rightarrow> float64 \<Rightarrow> float64" where
  \<comment> \<open>the loop over \<open>p.Files\<close>; the state is \<open>x\<close>\<close>
  "totalCoverage_loop [] x = x"
| "totalCoverage_loop (v # vs) x = totalCoverage_loop vs (fadd x (Coverage v))"

definition totalCoverage :: "templateData \<Rightarrow> float64" where
  "totalCoverage p =
     fdiv (totalCoverage_loop (Files p) (Fin 0)) (float64_of_len (length (Files p)))"

subsection \<open>Printing\<close>

definition digit :: "nat \<Rightarrow> char" where
  "digit n = ''0123456789'' ! n"

fun decimal :: "nat \<Rightarrow> string" where
  "decimal n = (if n < 10 then [digit n] else decimal (n div 10) @ [digit (n mod 10)])"

declare decimal.simps [simp del]

definition format_d :: "int \<Rightarrow> string" where
  \<comment> \<open>the verb \<open>%d\<close> of \<open>fmt\<close>\<close>
  "format_d i = (if i < 0 then CHR ''-'' # decimal (nat (- i)) else decimal (nat i))"

definition range_string :: "ProfileBlock \<Rightarrow> string" where
  \<comment> \<open>\<open>fmt.Sprintf("%d-%d", block.StartLine, block.EndLine)\<close>\<close>
  "range_string block = format_d (StartLine block) @ ''-'' @ format_d (EndLine block)"

fun Join :: "string list \<Rightarrow> string \<Rightarrow> string" where
  \<comment> \<open>\<open>strings.Join\<close>\<close>
  "Join [] sep = []"
| "Join [s] sep = s"
| "Join (s # t # ss) sep = s @ sep @ Join (t # ss) sep"

subsection \<open>removeArrayDuplicates\<close>

text \<open>
  Go ranges over a map in an order that the language leaves open: every key comes once,
  in an order that may change from one loop to the next. The order is a parameter of the
  model, a function from the map to the sequence of its keys, and \<open>go_map_range\<close> says
  that a sequence is one that Go may produce for a map.
\<close>

type_synonym map_order = "(string \<rightharpoonup> bool) \<Rightarrow> string list"

definition go_map_range :: "string list \<Rightarrow> (string \<rightharpoonup> bool) \<Rightarrow> bool" where
  "go_map_range ks m = (distinct ks \<and> set ks = dom m)"

fun enc_loop :: "string list \<Rightarrow> (string \<rightharpoonup> bool) \<Rightarrow> (string \<rightharpoonup> bool)" where
  \<comment> \<open>the first loop: \<open>enc[e[v]] = true\<close> for every index \<open>v\<close> of \<open>e\<close>\<close>
  "enc_loop [] enc = enc"
| "enc_loop (s # e) enc = enc_loop e (enc(s \<mapsto> True))"

fun res_loop :: "string list \<Rightarrow> string list \<Rightarrow> string list" where
  \<comment> \<open>the second loop: \<open>res = append(res, k)\<close> for every key \<open>k\<close>, in the order of the range\<close>
  "res_loop [] res = res"
| "res_loop (k # ks) res = res_loop ks (res @ [k])"

definition removeArrayDuplicates :: "map_order \<Rightarrow> string list \<Rightarrow> string list" where
  "removeArrayDuplicates order e = res_loop (order (enc_loop e Map.empty)) []"

definition range_allowed :: "map_order \<Rightarrow> string list \<Rightarrow> bool" where
  \<comment> \<open>\<open>order\<close> is a way in which Go may range over the map built from \<open>e\<close>\<close>
  "range_allowed order e =
     go_map_range (order (enc_loop e Map.empty)) (enc_loop e Map.empty)"

subsection \<open>htmlGen\<close>

fun uncoverdLines_loop :: "ProfileBlock list \<Rightarrow> string list \<Rightarrow> string list" where
  \<comment> \<open>the loop over \<open>profile.Blocks\<close>; the state is \<open>uncoverdLines\<close>\<close>
  "uncoverdLines_loop [] ls = ls"
| "uncoverdLines_loop (block # bs) ls =
     (if Count block \<noteq> 0 then uncoverdLines_loop bs ls
      else uncoverdLines_loop bs (ls @ [range_string block]))"

definition uncoverdLines :: "map_order \<Rightarrow> Profile \<Rightarrow> string list" where
  \<comment> \<open>the value of \<open>uncoverdLines\<close> after the call of \<open>removeArrayDuplicates\<close>\<close>
  "uncoverdLines order profile =
     removeArrayDuplicates order (uncoverdLines_loop (Blocks profile) [])"

datatype error = External string | CantFind string error

definition htmlGen :: "map_order \<Rightarrow> string \<Rightarrow> Profile \<Rightarrow> error + string" where
  \<comment> \<open>The writer is the \<open>bytes.Buffer\<close> of \<open>getTemplateData\<close>, to which a write never
      fails: the result is the text written, and \<open>Flush\<close> returns no error.\<close>
  "htmlGen order src profile =
     Inr (''<pre class='' @ [CHR 0x22] @ '' line-numbers'' @ [CHR 0x22]
          @ '' data-line='' @ [CHR 0x22] @ Join (uncoverdLines order profile) '',''
          @ [CHR 0x22] @ ''><code class='' @ [CHR 0x22] @ ''language-go'' @ [CHR 0x22]
          @ ''>'' @ src @ ''</code></pre>'')"

subsection \<open>getTemplateData\<close>

text \<open>
  The program reads the profile and the sources through packages that are not part of
  it. They are parameters of the model: \<open>ParseProfiles\<close> of \<open>cover\<close>, \<open>Split\<close> and
  \<open>Join\<close> of \<open>filepath\<close>, \<open>Import\<close> of \<open>build\<close> (its result reduced to the directory
  of the package), \<open>ReadFile\<close> of \<open>ioutil\<close>, and the order of the range over the map in
  the call of \<open>htmlGen\<close> for the file of each index.
\<close>

record env =
  ParseProfiles :: "string \<Rightarrow> error + Profile list"
  filepath_Split :: "string \<Rightarrow> string \<times> string"
  filepath_Join :: "string \<Rightarrow> string \<Rightarrow> string"
  build_Import :: "string \<Rightarrow> error + string"
  ReadFile :: "string \<Rightarrow> error + string"
  range_order :: "nat \<Rightarrow> map_order"

definition findFile :: "env \<Rightarrow> string \<Rightarrow> error + string" where
  "findFile E file =
     (case filepath_Split E file of
        (dir, file') \<Rightarrow>
          (case build_Import E dir of
             Inl err \<Rightarrow> Inl (CantFind file' err)
           | Inr pkg_Dir \<Rightarrow> Inr (filepath_Join E pkg_Dir file')))"

fun getTemplateData_loop ::
  "env \<Rightarrow> nat \<Rightarrow> Profile list \<Rightarrow> templateData \<Rightarrow> templateData \<times> error option" where
  \<comment> \<open>the loop over \<open>profiles\<close> from index \<open>k\<close> on; the state is \<open>d\<close>\<close>
  "getTemplateData_loop E k [] d = (d, None)"
| "getTemplateData_loop E k (profile # profiles) d =
     (let fn = FileName profile;
          d1 = (if Mode profile = ''set'' then d\<lparr>Set := True\<rparr> else d)
      in case findFile E fn of
           Inl err \<Rightarrow> (d1, Some err)
         | Inr file \<Rightarrow>
             (case ReadFile E file of
                Inl err \<Rightarrow> (d1, Some err)
              | Inr src \<Rightarrow>
                  (case htmlGen (range_order E k) src profile of
                     Inl err \<Rightarrow> (d1, Some err)
                   | Inr buf \<Rightarrow>
                       getTemplateData_loop E (Suc k) profiles
                         (d1\<lparr>Files := Files d1 @
                            [\<lparr>Name = fn, Body = buf,
                              Coverage = percentCovered profile, ID = int k\<rparr>]\<rparr>))))"

definition getTemplateData :: "env \<Rightarrow> string \<Rightarrow> templateData \<times> error option" where
  "getTemplateData E profile =
     (case ParseProfiles E profile of
        Inl err \<Rightarrow> (\<lparr>Files = [], Set = False\<rparr>, Some err)
      | Inr profiles \<Rightarrow> getTemplateData_loop E 0 profiles \<lparr>Files = [], Set = False\<rparr>)"

section \<open>The calculation in the words of the specification\<close>

text \<open>
  The specification describes \<open>percentCovered\<close> by two sums over the blocks of a file:
  the statements of all blocks, and the statements of the blocks that were hit. The sums
  are those of the integers, without a bound.
\<close>

definition total_statements :: "Profile \<Rightarrow> int" where
  "total_statements p = sum_list (map NumStmt (Blocks p))"

definition covered_statements :: "Profile \<Rightarrow> int" where
  "covered_statements p = sum_list (map NumStmt (filter (\<lambda>b. 0 < Count b) (Blocks p)))"

definition spec_percentCovered :: "Profile \<Rightarrow> float64" where
  \<comment> \<open>\<open>covered / total * 100\<close>, in floating point, of the two unbounded sums\<close>
  "spec_percentCovered p =
     fmul (fdiv (rnd (of_int (covered_statements p))) (rnd (of_int (total_statements p))))
       (Fin 100)"

definition is_percentage :: "float64 \<Rightarrow> bool" where
  \<comment> \<open>a finite number of the closed interval from 0 to 100\<close>
  "is_percentage x = (case x of Fin r \<Rightarrow> 0 \<le> r \<and> r \<le> 100 | _ \<Rightarrow> False)"

section \<open>Example inputs\<close>

definition four_large_blocks :: Profile where
  \<comment> \<open>four blocks, all hit, of \<open>2 ^ 62\<close> statements each: \<open>2 ^ 64\<close> statements\<close>
  "four_large_blocks = \<lparr>FileName = ''a.go'', Mode = ''count'', Blocks =
     [\<lparr>StartLine = 1, EndLine = 2, NumStmt = 2 ^ 62, Count = 1\<rparr>,
      \<lparr>StartLine = 3, EndLine = 4, NumStmt = 2 ^ 62, Count = 1\<rparr>,
      \<lparr>StartLine = 5, EndLine = 6, NumStmt = 2 ^ 62, Count = 1\<rparr>,
      \<lparr>StartLine = 7, EndLine = 8, NumStmt = 2 ^ 62, Count = 1\<rparr>]\<rparr>"

definition five_large_blocks :: Profile where
  \<comment> \<open>one block hit and four not: \<open>2 ^ 64 + 2 ^ 61\<close> statements, \<open>2 ^ 62\<close> of them covered\<close>
  "five_large_blocks = \<lparr>FileName = ''a.go'', Mode = ''count'', Blocks =
     [\<lparr>StartLine = 1, EndLine = 2, NumStmt = 2 ^ 62, Count = 1\<rparr>,
      \<lparr>StartLine = 3, EndLine = 4, NumStmt = 2 ^ 62, Count = 0\<rparr>,
      \<lparr>StartLine = 5, EndLine = 6, NumStmt = 2 ^ 62, Count = 0\<rparr>,
      \<lparr>StartLine = 7, EndLine = 8, NumStmt = 2 ^ 62, Count = 0\<rparr>,
      \<lparr>StartLine = 9, EndLine = 10, NumStmt = 2 ^ 61, Count = 0\<rparr>]\<rparr>"

definition two_blocks :: Profile where
  \<comment> \<open>the example of the specification: 2 of 5 statements covered\<close>
  "two_blocks = \<lparr>FileName = ''a.go'', Mode = ''set'', Blocks =
     [\<lparr>StartLine = 1, EndLine = 5, NumStmt = 3, Count = 0\<rparr>,
      \<lparr>StartLine = 6, EndLine = 10, NumStmt = 2, Count = 2\<rparr>]\<rparr>"

definition twice_the_same_block :: Profile where
  "twice_the_same_block = \<lparr>FileName = ''b.go'', Mode = ''count'', Blocks =
     [\<lparr>StartLine = 10, EndLine = 20, NumStmt = 5, Count = 0\<rparr>,
      \<lparr>StartLine = 10, EndLine = 20, NumStmt = 5, Count = 0\<rparr>]\<rparr>"

definition example_env :: env where
  \<comment> \<open>a profile file of two source files, both found and read\<close>
  "example_env =
     \<lparr>ParseProfiles = (\<lambda>name. Inr [two_blocks, twice_the_same_block]),
      filepath_Split = (\<lambda>name. ([], name)),
      filepath_Join = (\<lambda>dir name. ''/src/'' @ name),
      build_Import = (\<lambda>dir. Inr ''/src''),
      ReadFile = (\<lambda>name. Inr ''package main''),
      range_order = (\<lambda>k m. if k = 0 then [''1-5''] else [''10-20''])\<rparr>"

section \<open>Properties\<close>

subsection \<open>Rounding\<close>

lemma round_even_of_int: "round_even (of_int n) = n"
  by (simp add: round_even_def)

lemma round_even_range: "\<lfloor>x\<rfloor> \<le> round_even x \<and> round_even x \<le> \<lfloor>x\<rfloor> + 1"
  by (simp add: round_even_def Let_def)

lemma round_even_mono: "a \<le> b \<Longrightarrow> round_even a \<le> round_even b"
proof -
  assume ab: "a \<le> b"
  then have fl: "\<lfloor>a\<rfloor> \<le> \<lfloor>b\<rfloor>" by (rule floor_mono)
  show ?thesis
  proof (cases "\<lfloor>a\<rfloor> = \<lfloor>b\<rfloor>")
    case True
    with ab show ?thesis by (auto simp: round_even_def Let_def)
  next
    case False
    with fl have "\<lfloor>a\<rfloor> + 1 \<le> \<lfloor>b\<rfloor>" by simp
    with round_even_range [of a] round_even_range [of b] show ?thesis by linarith
  qed
qed

lemma round_even_le: "x \<le> of_int n \<Longrightarrow> round_even x \<le> n"
  using round_even_mono [of x "of_int n"] by (simp add: round_even_of_int)

lemma round_even_ge: "of_int n \<le> x \<Longrightarrow> n \<le> round_even x"
  using round_even_mono [of "of_int n" x] by (simp add: round_even_of_int)

lemma two_powr_int: "(2::real) powr real_of_int k = 2 powi k"
  by (rule powr_real_of_int') simp_all

lemma floor_log2_iff:
  "0 < x \<Longrightarrow> (\<lfloor>log 2 x\<rfloor> = e) = (2 powi e \<le> x \<and> x < 2 powi (e + 1))"
  using floor_log_eq_powr_iff [of x 2 e] unfolding two_powr_int by simp

lemma floor_log2_bounds:
  assumes "0 < x"
  shows "2 powi \<lfloor>log 2 x\<rfloor> \<le> x" and "x < 2 powi (\<lfloor>log 2 x\<rfloor> + 1)"
  using floor_log2_iff [OF assms, of "\<lfloor>log 2 x\<rfloor>"] by simp_all

lemma floor_log2_eq:
  assumes "0 < x" and "2 powi e \<le> x" and "x < 2 powi (e + 1)"
  shows "\<lfloor>log 2 x\<rfloor> = e"
  using floor_log2_iff [OF assms(1), of e] assms(2,3) by simp

lemma ulp_pos: "0 < ulp x"
  by (simp add: ulp_def)

lemma exponent_mono: "0 < x \<Longrightarrow> x \<le> y \<Longrightarrow> exponent x \<le> exponent y"
proof -
  assume "0 < x" "x \<le> y"
  then have "log 2 x \<le> log 2 y" by simp
  then have "\<lfloor>log 2 x\<rfloor> \<le> \<lfloor>log 2 y\<rfloor>" by (rule floor_mono)
  with \<open>0 < x\<close> \<open>x \<le> y\<close> show ?thesis by (simp add: exponent_def)
qed

lemma exponent_upper: "0 < x \<Longrightarrow> x < 2 powi (exponent x + 1)"
proof -
  assume x: "0 < x"
  have "\<lfloor>log 2 x\<rfloor> + 1 \<le> exponent x + 1" using x by (simp add: exponent_def)
  then have "(2::real) powi (\<lfloor>log 2 x\<rfloor> + 1) \<le> 2 powi (exponent x + 1)"
    by (intro power_int_increasing) simp_all
  with floor_log2_bounds(2) [OF x] show ?thesis by simp
qed

lemma exponent_lower: "0 < x \<Longrightarrow> - 1022 < exponent x \<Longrightarrow> 2 powi exponent x \<le> x"
proof -
  assume x: "0 < x" and e: "- 1022 < exponent x"
  then have "exponent x = \<lfloor>log 2 x\<rfloor>" by (simp add: exponent_def max_def split: if_splits)
  with floor_log2_bounds(1) [OF x] show ?thesis by simp
qed

lemma exponent_eq:
  assumes "0 < x" and "2 powi e \<le> x" and "x < 2 powi (e + 1)" and "- 1022 \<le> e"
  shows "exponent x = e"
  using floor_log2_eq [OF assms(1-3)] assms(1,4) by (simp add: exponent_def)

lemma nearest_upper: "0 < x \<Longrightarrow> nearest x \<le> 2 powi (exponent x + 1)"
proof -
  assume x: "0 < x"
  have "x / ulp x \<le> 2 powi (exponent x + 1) / ulp x"
    using exponent_upper [OF x] ulp_pos [of x] by (simp add: divide_right_mono)
  also have "2 powi (exponent x + 1) / ulp x = 2 powi 53"
    by (simp add: ulp_def power_int_diff power_int_add)
  also have "(2::real) powi 53 = of_int (2 ^ 53)" by simp
  finally have "round_even (x / ulp x) \<le> 2 ^ 53" by (rule round_even_le)
  then have "real_of_int (round_even (x / ulp x)) \<le> 2 ^ 53" 
    by (metis of_int_le_iff of_int_numeral of_int_power)
  then have "real_of_int (round_even (x / ulp x)) * ulp x \<le> 2 ^ 53 * ulp x"
    using ulp_pos [of x] by (simp add: mult_right_mono)
  also have "2 ^ 53 * ulp x = 2 powi (exponent x + 1)"
    by (simp add: ulp_def power_int_diff power_int_add)
  finally show ?thesis by (simp add: nearest_def)
qed

lemma nearest_lower: "0 < x \<Longrightarrow> - 1022 < exponent x \<Longrightarrow> 2 powi exponent x \<le> nearest x"
proof -
  assume x: "0 < x" and e: "- 1022 < exponent x"
  have "2 powi exponent x / ulp x \<le> x / ulp x"
    using exponent_lower [OF x e] ulp_pos [of x] by (simp add: divide_right_mono)
  moreover have "2 powi exponent x / ulp x = 2 powi 52"
    by (simp add: ulp_def power_int_diff)
  moreover have "(2::real) powi 52 = of_int (2 ^ 52)" by simp
  ultimately have "of_int (2 ^ 52) \<le> x / ulp x" by simp
  then have "2 ^ 52 \<le> round_even (x / ulp x)" by (rule round_even_ge)
  then have "2 ^ 52 \<le> real_of_int (round_even (x / ulp x))"
    by (metis of_int_le_iff of_int_numeral of_int_power)
  then have "2 ^ 52 * ulp x \<le> real_of_int (round_even (x / ulp x)) * ulp x"
    using ulp_pos [of x] by (simp add: mult_right_mono)
  moreover have "2 ^ 52 * ulp x = 2 powi exponent x"
    by (simp add: ulp_def power_int_diff)
  ultimately show ?thesis by (simp add: nearest_def)
qed

lemma nearest_nonneg: "0 \<le> x \<Longrightarrow> 0 \<le> nearest x"
proof -
  assume "0 \<le> x"
  then have "of_int 0 \<le> x / ulp x" using ulp_pos [of x] by simp
  then have "0 \<le> round_even (x / ulp x)" by (rule round_even_ge)
  then show ?thesis using ulp_pos [of x] by (simp add: nearest_def)
qed

lemma nearest_mono: "0 < x \<Longrightarrow> x \<le> y \<Longrightarrow> nearest x \<le> nearest y"
proof -
  assume x: "0 < x" and xy: "x \<le> y"
  then have y: "0 < y" by simp
  have le: "exponent x \<le> exponent y" using x xy by (rule exponent_mono)
  show ?thesis
  proof (cases "exponent x = exponent y")
    case True
    then have u: "ulp y = ulp x" by (simp add: ulp_def)
    have "x / ulp x \<le> y / ulp x" using xy ulp_pos [of x] by (simp add: divide_right_mono)
    then have "round_even (x / ulp x) \<le> round_even (y / ulp x)" by (rule round_even_mono)
    then show ?thesis using ulp_pos [of x] by (simp add: nearest_def u mult_right_mono)
  next
    case False
    with le have lt: "exponent x + 1 \<le> exponent y" by simp
    have "- 1022 \<le> exponent x" by (simp add: exponent_def)
    with lt have "- 1022 < exponent y" by simp
    have "nearest x \<le> 2 powi (exponent x + 1)" using x by (rule nearest_upper)
    also have "\<dots> \<le> 2 powi exponent y" using lt by (intro power_int_increasing) simp_all
    also have "\<dots> \<le> nearest y" using y \<open>- 1022 < exponent y\<close> by (rule nearest_lower)
    finally show ?thesis .
  qed
qed


lemma nearest_exact:
  assumes x: "x = of_int m * 2 powi k" and m: "2 ^ 52 \<le> m" "m < 2 ^ 53" and k: "- 1074 \<le> k"
  shows "nearest x = x"
proof -
  have m1: "(2::real) ^ 52 \<le> of_int m" using m(1)
    by (metis of_int_le_iff of_int_numeral of_int_power)
  have m2: "real_of_int m < 2 ^ 53" using m(2)
    by (metis of_int_less_iff of_int_numeral of_int_power)
  have p: "(0::real) < 2 powi k" by simp
  have pos: "0 < x" using m1 p by (simp add: x)
  have "2 powi (k + 52) = 2 ^ 52 * (2::real) powi k" by (simp add: power_int_add)
  also have "\<dots> \<le> x" unfolding x using m1 p by (intro mult_right_mono) simp_all
  finally have lo: "2 powi (k + 52) \<le> x" .
  have "x < 2 ^ 53 * (2::real) powi k" unfolding x using m2 p by (intro mult_strict_right_mono)
  also have "\<dots> = 2 powi (k + 52 + 1)" by (simp add: power_int_add)
  finally have hi: "x < 2 powi (k + 52 + 1)" .
  have e: "exponent x = k + 52" using pos lo hi k by (intro exponent_eq) simp_all
  then have u: "ulp x = 2 powi k" by (simp add: ulp_def)
  have q: "x / 2 powi k = of_int m" by (simp add: x)
  have "nearest x = of_int (round_even (x / 2 powi k)) * 2 powi k"
    by (simp only: nearest_def u)
  then have "nearest x = of_int (round_even (of_int m)) * 2 powi k"
    by (simp only: q)
  then have "nearest x = of_int m * 2 powi k"
    by (simp only: round_even_of_int)
  then show ?thesis using x by simp
qed

lemma rnd_exact:
  assumes x: "x = of_int m * 2 powi k" and m: "2 ^ 52 \<le> m" "m < 2 ^ 53"
    and k: "- 1074 \<le> k" "k \<le> 971"
  shows "rnd x = Fin x"
proof -
  have n: "nearest x = x" using x m k(1) by (rule nearest_exact)
  have m1: "(2::real) ^ 52 \<le> of_int m" using m(1)
    by (metis of_int_le_iff of_int_numeral of_int_power)
  have m2: "real_of_int m < 2 ^ 53" using m(2)
    by (metis of_int_less_iff of_int_numeral of_int_power)
  have p: "(0::real) < 2 powi k" by simp
  have pos: "0 < x" using m1 p by (simp add: x)
  have "x < 2 ^ 53 * (2::real) powi k" unfolding x using m2 p by (intro mult_strict_right_mono)
  also have "\<dots> \<le> 2 ^ 53 * 2 powi 971"
    using k(2) by (intro mult_left_mono power_int_increasing) simp_all
  also have "\<dots> = 2 ^ 1024" by simp
  finally have "x < 2 ^ 1024" .
  with pos n show ?thesis by (simp add: rnd_def)
qed

lemma rnd_mono_Fin:
  assumes "0 \<le> x" and "x \<le> y" and "rnd y = Fin b"
  shows "\<exists>a. rnd x = Fin a \<and> 0 \<le> a \<and> a \<le> b"
proof (cases "x = 0")
  case True
  have "0 \<le> nearest y" using assms(1,2) by (intro nearest_nonneg) simp
  with assms(3) have "0 \<le> b" by (auto simp: rnd_def split: if_splits)
  with True show ?thesis by (simp add: rnd_def)
next
  case False
  with assms(1) have x: "0 < x" by simp
  with assms(2) have y: "y \<noteq> 0" by auto
  from assms(3) y have b: "b = nearest y" "\<not> 2 ^ 1024 \<le> \<bar>nearest y\<bar>"
    by (auto simp: rnd_def split: if_splits)
  have le: "nearest x \<le> nearest y" using x assms(2) by (rule nearest_mono)
  have nn: "0 \<le> nearest x" using assms(1) by (rule nearest_nonneg)
  from le nn b(2) have "\<not> 2 ^ 1024 \<le> \<bar>nearest x\<bar>" by simp
  with False have "rnd x = Fin (nearest x)" by (simp add: rnd_def)
  with le nn b(1) show ?thesis by simp
qed

lemma rnd_1: "rnd 1 = Fin 1"
  by (rule rnd_exact [of 1 "2 ^ 52" "- 52"]) simp_all

lemma rnd_100: "rnd 100 = Fin 100"
  by (rule rnd_exact [of 100 "100 * 2 ^ 46" "- 46"]) simp_all

lemma rnd_2_63: "rnd (2 ^ 63) = Fin (2 ^ 63)"
  by (rule rnd_exact [of "2 ^ 63" "2 ^ 52" "11"]) simp_all

lemma rnd_compute:
  assumes "0 < x" and "2 powi e \<le> x" and "x < 2 powi (e + 1)" and "- 1022 \<le> e"
    and "round_even (x / 2 powi (e - 52)) = n" and "real_of_int n * 2 powi (e - 52) < 2 ^ 1024"
  shows "rnd x = Fin (of_int n * 2 powi (e - 52))"
proof -
  have e: "exponent x = e" using assms(1-4) by (rule exponent_eq)
  then have u: "ulp x = 2 powi (e - 52)" by (simp add: ulp_def)
  have n: "nearest x = of_int n * 2 powi (e - 52)"
    by (simp only: nearest_def u assms(5))
  have "0 \<le> nearest x" using assms(1) by (intro nearest_nonneg) simp
  with n assms(6) have "\<not> 2 ^ 1024 \<le> \<bar>nearest x\<bar>" by simp
  with assms(1) n show ?thesis by (simp add: rnd_def)
qed

lemma rnd_0: "rnd 0 = Fin 0"
  by (simp add: rnd_def)

lemma rnd_2: "rnd 2 = Fin 2"
  by (rule rnd_exact [of 2 "2 ^ 52" "- 51"]) simp_all

lemma rnd_5: "rnd 5 = Fin 5"
  by (rule rnd_exact [of 5 "5 * 2 ^ 50" "- 50"]) simp_all

lemma rnd_two_fifths: "rnd (2 / 5) = Fin (7205759403792794 / 2 ^ 54)"
  using rnd_compute [of "2 / 5" "- 2" 7205759403792794]
  by (simp add: round_even_def)

lemma rnd_two_fifths_times_100: "rnd (7205759403792794 / 2 ^ 54 * 100) = Fin 40"
  using rnd_compute [of "7205759403792794 / 2 ^ 54 * 100" 5 "40 * 2 ^ 47"]
  by (simp add: round_even_def)

lemma rnd_40: "rnd 40 = Fin 40"
  by (rule rnd_exact [of 40 "40 * 2 ^ 47" "- 47"]) simp_all

lemma rnd_70: "rnd 70 = Fin 70"
  by (rule rnd_exact [of 70 "70 * 2 ^ 46" "- 46"]) simp_all

lemma rnd_140: "rnd 140 = Fin 140"
  by (rule rnd_exact [of 140 "140 * 2 ^ 45" "- 45"]) simp_all

lemma rnd_200: "rnd 200 = Fin 200"
  by (rule rnd_exact [of 200 "200 * 2 ^ 45" "- 45"]) simp_all

lemma rnd_2_61: "rnd (2 ^ 61) = Fin (2 ^ 61)"
  by (rule rnd_exact [of "2 ^ 61" "2 ^ 52" 9]) simp_all

lemma rnd_2_62: "rnd (2 ^ 62) = Fin (2 ^ 62)"
  by (rule rnd_exact [of "2 ^ 62" "2 ^ 52" 10]) simp_all

lemma rnd_2_64: "rnd (2 ^ 64) = Fin (2 ^ 64)"
  by (rule rnd_exact [of "2 ^ 64" "2 ^ 52" 12]) simp_all

subsection \<open>The loops in closed form\<close>

lemma percentCovered_loop_eq:
  "percentCovered_loop bs (t, c) =
     (t + int64 (sum_list (map NumStmt bs)),
      c + int64 (sum_list (map NumStmt (filter (\<lambda>b. 0 < Count b) bs))))"
  by (induction bs arbitrary: t c) (simp_all add: int64_def)

lemma sint_int64: "- (2 ^ 63) \<le> i \<Longrightarrow> i < 2 ^ 63 \<Longrightarrow> sint (int64 i) = i"
  by (simp add: int64_def sint_sbintrunc' signed_take_bit_int_eq_self)

lemma float64_of_int64_int64:
  "- (2 ^ 63) \<le> i \<Longrightarrow> i < 2 ^ 63 \<Longrightarrow> float64_of_int64 (int64 i) = rnd (of_int i)"
  by (simp only: float64_of_int64_def sint_int64)

lemma covered_le_total:
  "\<forall>b\<in>set bs. 0 \<le> NumStmt b \<Longrightarrow>
   0 \<le> sum_list (map NumStmt (filter P bs))
   \<and> sum_list (map NumStmt (filter P bs)) \<le> sum_list (map NumStmt bs)"
  by (induction bs) auto

lemma totalCoverage_loop_foldl:
  "totalCoverage_loop vs x = foldl fadd x (map Coverage vs)"
  by (induction vs arbitrary: x) simp_all

lemma uncoverdLines_loop_eq:
  "uncoverdLines_loop bs ls = ls @ map range_string (filter (\<lambda>b. Count b = 0) bs)"
  by (induction bs arbitrary: ls) auto

lemma dom_enc_loop: "dom (enc_loop e enc) = dom enc \<union> set e"
  by (induction e arbitrary: enc) auto

lemma res_loop_append: "res_loop ks res = res @ ks"
  by (induction ks arbitrary: res) auto

lemma removeArrayDuplicates_distinct:
  "range_allowed order e \<Longrightarrow> distinct (removeArrayDuplicates order e)"
  by (simp add: range_allowed_def go_map_range_def removeArrayDuplicates_def res_loop_append)

lemma removeArrayDuplicates_set:
  "range_allowed order e \<Longrightarrow> set (removeArrayDuplicates order e) = set e"
  by (simp add: range_allowed_def go_map_range_def removeArrayDuplicates_def res_loop_append
      dom_enc_loop)

lemma count_list_distinct: "distinct xs \<Longrightarrow> x \<in> set xs \<Longrightarrow> count_list xs x = 1"
  by (induction xs) (auto simp: count_list_0_iff)

lemma uncoverdLines_member:
  assumes "range_allowed order (uncoverdLines_loop (Blocks p) [])"
    and "b \<in> set (Blocks p)" and "Count b = 0"
  shows "range_string b \<in> set (uncoverdLines order p)"
proof -
  have "range_string b \<in> set (uncoverdLines_loop (Blocks p) [])"
    using assms(2,3) by (simp add: uncoverdLines_loop_eq)
  then show ?thesis
    using assms(1) by (simp add: uncoverdLines_def removeArrayDuplicates_set)
qed

lemma getTemplateData_loop_Set:
  "getTemplateData_loop E k ps d = (d', None) \<Longrightarrow>
   Set d' = (Set d \<or> (\<exists>p\<in>set ps. Mode p = ''set''))"
proof (induction ps arbitrary: k d)
  case Nil
  then show ?case by simp
next
  case (Cons p ps)
  then show ?case
    by (auto simp: Let_def split: sum.splits if_splits)
qed

lemma getTemplateData_loop_Files:
  "getTemplateData_loop E k ps d = (d', None) \<Longrightarrow>
   \<exists>fs. Files d' = Files d @ fs \<and> length fs = length ps \<and>
     (\<forall>i<length ps. ID (fs ! i) = int (k + i) \<and> Name (fs ! i) = FileName (ps ! i)
        \<and> Coverage (fs ! i) = percentCovered (ps ! i))"
proof (induction ps arbitrary: k d)
  case Nil
  then show ?case by simp
next
  case (Cons p ps)
  let ?d1 = "if Mode p = ''set'' then d\<lparr>Set := True\<rparr> else d"
  from Cons.prems obtain buf where
    rec: "getTemplateData_loop E (Suc k) ps
            (?d1\<lparr>Files := Files ?d1 @
               [\<lparr>Name = FileName p, Body = buf, Coverage = percentCovered p, ID = int k\<rparr>]\<rparr>)
          = (d', None)"
    by (auto simp: Let_def split: sum.splits if_splits)
  let ?f = "\<lparr>Name = FileName p, Body = buf, Coverage = percentCovered p, ID = int k\<rparr>"
  from Cons.IH [OF rec] obtain fs where
    fs: "Files d' = (Files ?d1 @ [?f]) @ fs" "length fs = length ps"
      "\<forall>i<length ps. ID (fs ! i) = int (Suc k + i) \<and> Name (fs ! i) = FileName (ps ! i)
        \<and> Coverage (fs ! i) = percentCovered (ps ! i)"
    by auto
  have "Files ?d1 = Files d" by simp
  with fs(1) have 1: "Files d' = Files d @ (?f # fs)" by simp
  have 2: "length (?f # fs) = length (p # ps)" using fs(2) by simp
  have 3: "\<forall>i<length (p # ps). ID ((?f # fs) ! i) = int (k + i)
      \<and> Name ((?f # fs) ! i) = FileName ((p # ps) ! i)
      \<and> Coverage ((?f # fs) ! i) = percentCovered ((p # ps) ! i)"
  proof (intro allI impI)
    fix i assume "i < length (p # ps)"
    then show "ID ((?f # fs) ! i) = int (k + i)
      \<and> Name ((?f # fs) ! i) = FileName ((p # ps) ! i)
      \<and> Coverage ((?f # fs) ! i) = percentCovered ((p # ps) ! i)"
      using fs(3) by (cases i) auto
  qed
  from 1 2 3 show ?case by blast
qed

subsection \<open>The example inputs\<close>

lemma float64_of_int64_2_61: "float64_of_int64 (2 ^ 61) = Fin (2 ^ 61)"
proof -
  have "sint (2 ^ 61 :: 64 word) = 2 ^ 61" by simp
  then show ?thesis
    by (simp only: float64_of_int64_def of_int_power of_int_numeral rnd_2_61)
qed

lemma float64_of_int64_2_62: "float64_of_int64 (2 ^ 62) = Fin (2 ^ 62)"
proof -
  have "sint (2 ^ 62 :: 64 word) = 2 ^ 62" by simp
  then show ?thesis
    by (simp only: float64_of_int64_def of_int_power of_int_numeral rnd_2_62)
qed

lemma four_large_blocks_loop:
  "percentCovered_loop (Blocks four_large_blocks) (0, 0) = (0, 0)"
  by (simp add: four_large_blocks_def int64_def)

lemma four_large_blocks_sums:
  "total_statements four_large_blocks = 2 ^ 64"
  "covered_statements four_large_blocks = 2 ^ 64"
  by (simp_all add: total_statements_def covered_statements_def four_large_blocks_def)

lemma four_large_blocks_code: "percentCovered four_large_blocks = Fin 0"
  by (simp add: percentCovered_def four_large_blocks_loop)

lemma four_large_blocks_spec: "spec_percentCovered four_large_blocks = Fin 100"
proof -
  have d: "fdiv (Fin (2 ^ 64)) (Fin (2 ^ 64)) = Fin 1" by (simp add: rnd_1)
  have m: "fmul (Fin 1) (Fin 100) = Fin 100" by (simp add: rnd_100)
  show ?thesis
    by (simp only: spec_percentCovered_def four_large_blocks_sums of_int_power
        of_int_numeral rnd_2_64 d m)
qed

lemma five_large_blocks_loop:
  "percentCovered_loop (Blocks five_large_blocks) (0, 0) = (2 ^ 61, 2 ^ 62)"
  by (simp add: five_large_blocks_def int64_def)

lemma five_large_blocks_code: "percentCovered five_large_blocks = Fin 200"
proof -
  have nz: "(2 ^ 61 :: 64 word) \<noteq> 0" by simp
  have d: "fdiv (Fin (2 ^ 62)) (Fin (2 ^ 61)) = Fin 2" by (simp add: rnd_2)
  have m: "fmul (Fin 2) (Fin 100) = Fin 200" by (simp add: rnd_200)
  show ?thesis
    by (simp only: percentCovered_def five_large_blocks_loop prod.case nz if_False
        float64_of_int64_2_61 float64_of_int64_2_62 d m)
qed

lemma two_blocks_loop: "percentCovered_loop (Blocks two_blocks) (0, 0) = (5, 2)"
  by (simp add: two_blocks_def int64_def)

lemma two_blocks_code: "percentCovered two_blocks = Fin 40"
proof -
  have nz: "(5 :: 64 word) \<noteq> 0" by simp
  have c: "float64_of_int64 2 = Fin 2" by (simp add: float64_of_int64_def rnd_2)
  have t: "float64_of_int64 5 = Fin 5" by (simp add: float64_of_int64_def rnd_5)
  have d: "fdiv (Fin 2) (Fin 5) = Fin (7205759403792794 / 2 ^ 54)"
    by (simp add: rnd_two_fifths)
  have m: "fmul (Fin (7205759403792794 / 2 ^ 54)) (Fin 100) = Fin 40"
    using rnd_two_fifths_times_100 by simp
  show ?thesis
    by (simp only: percentCovered_def two_blocks_loop prod.case nz if_False c t d m)
qed

lemma range_string_10_20:
  "range_string \<lparr>StartLine = 10, EndLine = 20, NumStmt = n, Count = c\<rparr> = ''10-20''"
  by (simp add: range_string_def format_d_def decimal.simps digit_def)

lemma example_env_result:
  "getTemplateData example_env ''cover.out'' =
     (\<lparr>Files =
        [\<lparr>Name = ''a.go'',
          Body = ''<pre class='' @ [CHR 0x22] @ '' line-numbers'' @ [CHR 0x22]
            @ '' data-line='' @ [CHR 0x22] @ ''1-5'' @ [CHR 0x22] @ ''><code class=''
            @ [CHR 0x22] @ ''language-go'' @ [CHR 0x22] @ ''>package main</code></pre>'',
          Coverage = percentCovered two_blocks, ID = 0\<rparr>,
         \<lparr>Name = ''b.go'',
          Body = ''<pre class='' @ [CHR 0x22] @ '' line-numbers'' @ [CHR 0x22]
            @ '' data-line='' @ [CHR 0x22] @ ''10-20'' @ [CHR 0x22] @ ''><code class=''
            @ [CHR 0x22] @ ''language-go'' @ [CHR 0x22] @ ''>package main</code></pre>'',
          Coverage = percentCovered twice_the_same_block, ID = 1\<rparr>],
       Set = True\<rparr>, None)"
  by (simp add: getTemplateData_def example_env_def findFile_def htmlGen_def
      uncoverdLines_def removeArrayDuplicates_def two_blocks_def twice_the_same_block_def)

subsection \<open>The properties of the specification\<close>

text \<open>
  C1: for a report with zero files, \<open>totalCoverage\<close> is said to return 0. The function
  has no guard for the empty report: it divides the empty sum 0 by the length 0, and the
  quotient of two floating-point zeros is NaN.
\<close>

theorem totalCoverage_no_files: "totalCoverage \<lparr>Files = [], Set = False\<rparr> = NaN"
  by (simp add: totalCoverage_def float64_of_len_def rnd_0)

text \<open>
  C2: \<open>percentCovered\<close> is the number of statements of the blocks with a hit count above
  0, divided by the number of statements of all blocks, times 100, in floating point,
  where both sums are taken at the type \<open>int64\<close>, wrapping around, and the result is 0
  when that total is 0. A block whose hit count is 0 (or below) is left out of the first
  sum whatever its statement count.
\<close>

theorem percentCovered_formula:
  "percentCovered p =
     (if int64 (total_statements p) = 0 then Fin 0
      else fmul (fdiv (float64_of_int64 (int64 (covered_statements p)))
                  (float64_of_int64 (int64 (total_statements p)))) (Fin 100))"
  by (simp add: percentCovered_def percentCovered_loop_eq total_statements_def
      covered_statements_def)

text \<open>
  With the sums taken in the integers the equation fails: four blocks of \<open>2 ^ 62\<close>
  statements each, all of them hit, have \<open>2 ^ 64\<close> statements, every one covered, which
  is 100 percent. The \<open>int64\<close> total of the program is 0, and it returns 0.
\<close>

theorem percentCovered_formula_counterexample:
  "list_all go_int (map NumStmt (Blocks four_large_blocks))
   \<and> total_statements four_large_blocks \<noteq> 0
   \<and> percentCovered four_large_blocks = Fin 0
   \<and> spec_percentCovered four_large_blocks = Fin 100
   \<and> percentCovered four_large_blocks \<noteq> spec_percentCovered four_large_blocks"
proof -
  have "list_all go_int (map NumStmt (Blocks four_large_blocks))"
    by (simp add: four_large_blocks_def go_int_def)
  moreover have "total_statements four_large_blocks \<noteq> 0"
    by (simp add: four_large_blocks_sums)
  ultimately show ?thesis
    by (simp add: four_large_blocks_code four_large_blocks_spec)
qed

text \<open>
  C3: a profile whose statement counts sum to 0 has \<open>percentCovered\<close> exactly 0, a finite
  number and no NaN.
\<close>

theorem percentCovered_no_statements:
  "sum_list (map NumStmt (Blocks p)) = 0 \<Longrightarrow> percentCovered p = Fin 0"
  by (simp add: percentCovered_def percentCovered_loop_eq int64_def)

theorem percentCovered_no_statements_witness:
  "sum_list (map NumStmt (Blocks \<lparr>FileName = ''a.go'', Mode = ''set'',
        Blocks = [\<lparr>StartLine = 1, EndLine = 5, NumStmt = 0, Count = 3\<rparr>]\<rparr>)) = 0
   \<and> percentCovered \<lparr>FileName = ''a.go'', Mode = ''set'',
        Blocks = [\<lparr>StartLine = 1, EndLine = 5, NumStmt = 0, Count = 3\<rparr>]\<rparr> = Fin 0"
  using percentCovered_no_statements
    [of "\<lparr>FileName = ''a.go'', Mode = ''set'',
        Blocks = [\<lparr>StartLine = 1, EndLine = 5, NumStmt = 0, Count = 3\<rparr>]\<rparr>"]
  by simp

text \<open>
  C4: for a report with at least one file, \<open>totalCoverage\<close> is the floating-point sum of
  the coverage of the files, added from the first to the last, divided by the number of
  files. Each file counts once, whatever its number of statements.
\<close>

theorem totalCoverage_mean:
  "Files p \<noteq> [] \<Longrightarrow>
   totalCoverage p =
     fdiv (foldl fadd (Fin 0) (map Coverage (Files p))) (float64_of_len (length (Files p)))"
  by (simp add: totalCoverage_def totalCoverage_loop_foldl)

theorem totalCoverage_mean_witness:
  "Files \<lparr>Files = [\<lparr>Name = ''a.go'', Body = [], Coverage = Fin 40, ID = 0\<rparr>,
                   \<lparr>Name = ''b.go'', Body = [], Coverage = Fin 100, ID = 1\<rparr>],
          Set = False\<rparr> \<noteq> []
   \<and> totalCoverage \<lparr>Files = [\<lparr>Name = ''a.go'', Body = [], Coverage = Fin 40, ID = 0\<rparr>,
                   \<lparr>Name = ''b.go'', Body = [], Coverage = Fin 100, ID = 1\<rparr>],
          Set = False\<rparr> = Fin 70"
  using totalCoverage_mean
    [of "\<lparr>Files = [\<lparr>Name = ''a.go'', Body = [], Coverage = Fin 40, ID = 0\<rparr>,
                   \<lparr>Name = ''b.go'', Body = [], Coverage = Fin 100, ID = 1\<rparr>],
          Set = False\<rparr>"]
  by (simp add: float64_of_len_def rnd_40 rnd_140 rnd_2 rnd_70)

text \<open>
  C5: when two blocks of a profile, at different places of the list, both have hit count
  0 and give the same string \<open>start-end\<close>, that string is exactly once among the
  uncovered ranges that \<open>htmlGen\<close> writes, in whatever order Go ranges over the map.
\<close>

theorem uncoverdLines_once:
  assumes "range_allowed order (uncoverdLines_loop (Blocks p) [])"
    and "i < length (Blocks p)" and "j < length (Blocks p)" and "i \<noteq> j"
    and "Count (Blocks p ! i) = 0" and "Count (Blocks p ! j) = 0"
    and "range_string (Blocks p ! i) = range_string (Blocks p ! j)"
  shows "count_list (uncoverdLines order p) (range_string (Blocks p ! i)) = 1"
proof -
  have "Blocks p ! i \<in> set (Blocks p)" using assms(2) by simp
  then have "range_string (Blocks p ! i) \<in> set (uncoverdLines order p)"
    using assms(1,5) by (intro uncoverdLines_member)
  moreover have "distinct (uncoverdLines order p)"
    using assms(1) by (simp add: uncoverdLines_def removeArrayDuplicates_distinct)
  ultimately show ?thesis by (rule count_list_distinct [rotated])
qed

theorem uncoverdLines_once_witness:
  "range_allowed (\<lambda>m. [''10-20'']) (uncoverdLines_loop (Blocks twice_the_same_block) [])
   \<and> range_string (Blocks twice_the_same_block ! 0) = ''10-20''
   \<and> range_string (Blocks twice_the_same_block ! 1) = ''10-20''
   \<and> uncoverdLines (\<lambda>m. [''10-20'']) twice_the_same_block = [''10-20'']
   \<and> count_list (uncoverdLines (\<lambda>m. [''10-20'']) twice_the_same_block) ''10-20'' = 1"
  using uncoverdLines_once [of "\<lambda>m. [''10-20'']" twice_the_same_block 0 1]
  by (simp add: range_allowed_def go_map_range_def twice_the_same_block_def
      range_string_10_20 uncoverdLines_def removeArrayDuplicates_def)

text \<open>
  C6: a block with hit count 0 and statement count 0 has its string \<open>start-end\<close> among
  the uncovered ranges that \<open>htmlGen\<close> writes: the statement count plays no part.
\<close>

theorem uncoverdLines_no_statements:
  assumes "range_allowed order (uncoverdLines_loop (Blocks p) [])"
    and "b \<in> set (Blocks p)" and "Count b = 0" and "NumStmt b = 0"
  shows "range_string b \<in> set (uncoverdLines order p)"
  using assms(1-3) by (rule uncoverdLines_member)

theorem uncoverdLines_no_statements_witness:
  "range_allowed (\<lambda>m. [''10-20''])
     (uncoverdLines_loop (Blocks \<lparr>FileName = ''a.go'', Mode = ''set'',
        Blocks = [\<lparr>StartLine = 10, EndLine = 20, NumStmt = 0, Count = 0\<rparr>]\<rparr>) [])
   \<and> ''10-20'' \<in> set (uncoverdLines (\<lambda>m. [''10-20'']) \<lparr>FileName = ''a.go'', Mode = ''set'',
        Blocks = [\<lparr>StartLine = 10, EndLine = 20, NumStmt = 0, Count = 0\<rparr>]\<rparr>)"
  using uncoverdLines_no_statements [of "\<lambda>m. [''10-20'']"
      "\<lparr>FileName = ''a.go'', Mode = ''set'',
        Blocks = [\<lparr>StartLine = 10, EndLine = 20, NumStmt = 0, Count = 0\<rparr>]\<rparr>"
      "\<lparr>StartLine = 10, EndLine = 20, NumStmt = 0, Count = 0\<rparr>"]
  by (simp add: range_allowed_def go_map_range_def range_string_10_20)

text \<open>
  C7: for a profile whose blocks all have a statement count of at least 0, and whose
  statement counts sum to less than \<open>2 ^ 63\<close>, \<open>percentCovered\<close> is a finite number
  between 0 and 100, whether or not blocks repeat or overlap.
\<close>

theorem percentCovered_range:
  assumes nonneg: "\<forall>b\<in>set (Blocks p). 0 \<le> NumStmt b"
    and fits: "sum_list (map NumStmt (Blocks p)) < 2 ^ 63"
  shows "is_percentage (percentCovered p)"
proof -
  define T where "T = sum_list (map NumStmt (Blocks p))"
  define C where "C = sum_list (map NumStmt (filter (\<lambda>b. 0 < Count b) (Blocks p)))"
  have CT: "0 \<le> C" "C \<le> T"
    using covered_le_total [OF nonneg, of "\<lambda>b. 0 < Count b"] by (simp_all add: T_def C_def)
  have T63: "T < 2 ^ 63" using fits by (simp add: T_def)
  have loop: "percentCovered_loop (Blocks p) (0, 0) = (int64 T, int64 C)"
    by (simp add: percentCovered_loop_eq T_def C_def)
  have sT: "float64_of_int64 (int64 T) = rnd (of_int T)"
    using CT T63 by (intro float64_of_int64_int64) simp_all
  have sC: "float64_of_int64 (int64 C) = rnd (of_int C)"
    using CT T63 by (intro float64_of_int64_int64) simp_all
  show ?thesis
  proof (cases "int64 T = 0")
    case True
    then show ?thesis by (simp add: percentCovered_def loop is_percentage_def)
  next
    case False
    then have "T \<noteq> 0" by (auto simp: int64_def)
    with CT have T1: "1 \<le> T" by simp
    have "real_of_int T \<le> 2 ^ 63" using T63
      by (metis less_imp_le of_int_le_iff of_int_numeral of_int_power)
    with rnd_mono_Fin [of "of_int T" "2 ^ 63", OF _ _ rnd_2_63] T1
    obtain t where t: "rnd (of_int T) = Fin t" by auto
    from rnd_mono_Fin [of 1 "of_int T", OF _ _ t] T1 have t1: "1 \<le> t"
      by (simp add: rnd_1)
    from rnd_mono_Fin [of "of_int C" "of_int T", OF _ _ t] CT
    obtain c where c: "rnd (of_int C) = Fin c" "0 \<le> c" "c \<le> t" by auto
    have "0 \<le> c / t" "c / t \<le> 1" using c t1 by simp_all
    with rnd_mono_Fin [of "c / t" 1, OF _ _ rnd_1]
    obtain q where q: "rnd (c / t) = Fin q" "0 \<le> q" "q \<le> 1" by auto
    have "0 \<le> q * 100" "q * 100 \<le> 100" using q by simp_all
    with rnd_mono_Fin [of "q * 100" 100, OF _ _ rnd_100]
    obtain r where r: "rnd (q * 100) = Fin r" "0 \<le> r" "r \<le> 100" by auto
    have "percentCovered p = Fin r"
      using False t c q r t1 by (simp add: percentCovered_def loop sT sC)
    with r show ?thesis by (simp add: is_percentage_def)
  qed
qed

theorem percentCovered_range_witness:
  "list_all ((\<le>) 0) (map NumStmt (Blocks two_blocks))
   \<and> sum_list (map NumStmt (Blocks two_blocks)) < 2 ^ 63
   \<and> percentCovered two_blocks = Fin 40
   \<and> is_percentage (percentCovered two_blocks)"
proof -
  have nonneg: "\<forall>b\<in>set (Blocks two_blocks). 0 \<le> NumStmt b"
    by (simp add: two_blocks_def)
  have fits: "sum_list (map NumStmt (Blocks two_blocks)) < 2 ^ 63"
    by (simp add: two_blocks_def)
  have "list_all ((\<le>) 0) (map NumStmt (Blocks two_blocks))"
    by (simp add: two_blocks_def)
  with percentCovered_range [OF nonneg fits] fits show ?thesis
    by (simp add: two_blocks_code)
qed

text \<open>
  Without the bound on the sum the range fails: of five blocks with \<open>2 ^ 64 + 2 ^ 61\<close>
  statements, \<open>2 ^ 62\<close> of them covered, the \<open>int64\<close> total is \<open>2 ^ 61\<close>, and
  \<open>percentCovered\<close> is 200.
\<close>

theorem percentCovered_range_counterexample:
  "list_all go_int (map NumStmt (Blocks five_large_blocks))
   \<and> list_all ((\<le>) 0) (map NumStmt (Blocks five_large_blocks))
   \<and> percentCovered five_large_blocks = Fin 200
   \<and> \<not> is_percentage (percentCovered five_large_blocks)"
proof -
  have "list_all go_int (map NumStmt (Blocks five_large_blocks))"
    by (simp add: five_large_blocks_def go_int_def)
  moreover have "list_all ((\<le>) 0) (map NumStmt (Blocks five_large_blocks))"
    by (simp add: five_large_blocks_def)
  ultimately show ?thesis
    by (simp add: five_large_blocks_code is_percentage_def)
qed

text \<open>
  C8: when \<open>getTemplateData\<close> returns without an error, the flag \<open>Set\<close> of its report is
  true if and only if at least one of the parsed profiles has the mode \<open>set\<close>; profiles
  of the modes \<open>count\<close> and \<open>atomic\<close> leave it false.
\<close>

theorem getTemplateData_Set:
  assumes "ParseProfiles E profile = Inr profiles"
    and "getTemplateData E profile = (d, None)"
  shows "Set d = (\<exists>p\<in>set profiles. Mode p = ''set'')"
  using assms getTemplateData_loop_Set [of E 0 profiles "\<lparr>Files = [], Set = False\<rparr>" d]
  by (simp add: getTemplateData_def)

theorem getTemplateData_Set_witness:
  "ParseProfiles example_env ''cover.out'' = Inr [two_blocks, twice_the_same_block]
   \<and> snd (getTemplateData example_env ''cover.out'') = None
   \<and> Mode two_blocks = ''set''
   \<and> Set (fst (getTemplateData example_env ''cover.out''))"
  using getTemplateData_Set [of example_env "''cover.out''"
      "[two_blocks, twice_the_same_block]" "fst (getTemplateData example_env ''cover.out'')"]
  by (simp add: example_env_result) (simp add: example_env_def two_blocks_def)

text \<open>
  C9: when \<open>getTemplateData\<close> returns without an error, its report has one file for
  each parsed profile, in the order of the profiles: the file at position \<open>k\<close>, counted
  from 0, has the \<open>ID\<close> \<open>k\<close>, and the name and the coverage of the profile at position \<open>k\<close>.
\<close>

theorem getTemplateData_order:
  assumes "ParseProfiles E profile = Inr profiles"
    and "getTemplateData E profile = (d, None)"
  shows "length (Files d) = length profiles \<and>
     (\<forall>k<length profiles. ID (Files d ! k) = int k
        \<and> Name (Files d ! k) = FileName (profiles ! k)
        \<and> Coverage (Files d ! k) = percentCovered (profiles ! k))"
  using assms getTemplateData_loop_Files [of E 0 profiles "\<lparr>Files = [], Set = False\<rparr>" d]
  by (auto simp: getTemplateData_def)

theorem getTemplateData_order_witness:
  "ParseProfiles example_env ''cover.out'' = Inr [two_blocks, twice_the_same_block]
   \<and> snd (getTemplateData example_env ''cover.out'') = None
   \<and> length (Files (fst (getTemplateData example_env ''cover.out''))) = 2
   \<and> ID (Files (fst (getTemplateData example_env ''cover.out'')) ! 1) = 1
   \<and> Name (Files (fst (getTemplateData example_env ''cover.out'')) ! 1) = ''b.go''"
  using getTemplateData_order [of example_env "''cover.out''"
      "[two_blocks, twice_the_same_block]" "fst (getTemplateData example_env ''cover.out'')"]
  by (simp add: example_env_result) (simp add: example_env_def)

text \<open>
  C10: a block with a hit count below 0 adds its statements to \<open>total\<close> and nothing to
  \<open>covered\<close> in \<open>percentCovered\<close>, and adds no string to the uncovered ranges of
  \<open>htmlGen\<close>: with the block in the list, the first loop ends with a total larger by the
  statements of the block and with the same \<open>covered\<close>, and the second loop ends with the
  same list of strings, as without the block.
\<close>

theorem negative_count_block:
  assumes "Count b < 0"
  shows "percentCovered_loop (bs1 @ b # bs2) (0, 0) =
           (fst (percentCovered_loop (bs1 @ bs2) (0, 0)) + int64 (NumStmt b),
            snd (percentCovered_loop (bs1 @ bs2) (0, 0)))
         \<and> uncoverdLines_loop (bs1 @ b # bs2) [] = uncoverdLines_loop (bs1 @ bs2) []"
  using assms by (simp add: percentCovered_loop_eq uncoverdLines_loop_eq int64_def)

theorem negative_count_block_witness:
  "Count \<lparr>StartLine = 10, EndLine = 20, NumStmt = 5, Count = - 1\<rparr> < 0
   \<and> percentCovered_loop
       ([] @ \<lparr>StartLine = 10, EndLine = 20, NumStmt = 5, Count = - 1\<rparr> # []) (0, 0) = (5, 0)
   \<and> uncoverdLines_loop
       ([] @ \<lparr>StartLine = 10, EndLine = 20, NumStmt = 5, Count = - 1\<rparr> # []) [] = []"
  using negative_count_block
    [of "\<lparr>StartLine = 10, EndLine = 20, NumStmt = 5, Count = - 1\<rparr>" "[]" "[]"]
  by (simp add: int64_def)

end
